theory Spec2Isabelle
  imports Main "HOL-Library.AList" "HOL-Library.Word"
begin

section \<open>The OTP session server (src/otp.js)\<close>

text \<open>
  The program keeps two pieces of module-level state: \<^verbatim>\<open>_browserPromise\<close> (the shared
  browser) and \<^verbatim>\<open>userSessions\<close> (a JavaScript \<^verbatim>\<open>Map\<close> from session id to session
  object). Every operation is an \<^verbatim>\<open>async\<close> function that talks to the browser-automation
  library. The model below is sequential: one operation runs from its call to its return
  (or throw) without another one interleaved, which is the assumption the program itself
  makes about requests for one session id.

  The automation library is not part of the program. Its answers (a promise resolves or
  rejects, \<^verbatim>\<open>page.isClosed()\<close> is true or false) are taken from an environment record that
  is a parameter of every operation, and the lifecycle calls the program issues to it are
  appended to a call log kept in the state. \<^verbatim>\<open>Date.now()\<close> is a parameter as well.
  Console output is not modelled.
\<close>

subsection \<open>Configuration (CONFIG, lines 10-18)\<close>

definition SESSION_MAX_AGE_MS :: int where
  "SESSION_MAX_AGE_MS = 30 * 60 * 1000"

definition OTP_TTL_MS :: int where
  "OTP_TTL_MS = 5 * 60 * 1000"

subsection \<open>Handles, sessions, state\<close>

text \<open>
  A browser, a browsing context and a page (tab) are objects of the library; the model
  names each by a handle. A fresh object gets the next unused handle.
\<close>

type_synonym handle = nat

text \<open>
  A JavaScript string is a sequence of UTF-16 code units. The text read from the page and
  the OTP made of it are modelled so, because \<^verbatim>\<open>trim\<close> looks at the code units. The
  session ids, phone numbers, status values and error messages are only compared and
  passed on; they are HOL strings.
\<close>

type_synonym utf16 = "16 word list"

text \<open>
  The session object of lines 101-109. \<^verbatim>\<open>page\<close> and \<^verbatim>\<open>context\<close> are tested for
  null at lines 150, 224 and 225, so both are optional here (the field \<^verbatim>\<open>context\<close> is
  called \<open>browserContext\<close>). Timestamps are milliseconds.
\<close>

record session =
  page :: "handle option"
  browserContext :: "handle option"
  phone :: string
  otp :: utf16
  createdAt :: int
  otpExpiresAt :: int
  status :: string

text \<open>
  The lifecycle calls issued to the library: \<^verbatim>\<open>chromium.launch\<close>, \<^verbatim>\<open>browser.close\<close>,
  \<^verbatim>\<open>browser.newContext\<close> and \<^verbatim>\<open>context.newPage\<close> (logged with the handle they
  returned; a rejected call returns none and is not logged), \<^verbatim>\<open>page.close\<close> and
  \<^verbatim>\<open>context.close\<close> (logged when called, whatever the outcome). The calls that only
  drive the DOM of a page are not logged.
\<close>

datatype event =
    Launch
  | BrowserClose handle
  | NewContext handle
  | NewPage handle handle
  | PageClose handle
  | ContextClose handle

text \<open>
  \<open>browserPromise\<close> is \<^verbatim>\<open>_browserPromise\<close>: \<open>None\<close> for null, \<open>Some b\<close> for a promise
  resolved with browser \<open>b\<close>. \<open>userSessions\<close> is the \<^verbatim>\<open>Map\<close>, as an association list
  in insertion order: \<^verbatim>\<open>get\<close> is \<open>map_of\<close>, \<^verbatim>\<open>set\<close> is \<open>AList.update\<close> (an existing
  key keeps its place, a new key goes to the end), \<^verbatim>\<open>delete\<close> is \<open>AList.delete\<close>.
  The keys of a \<^verbatim>\<open>Map\<close> are distinct, which for the list is the predicate
  \<open>distinct (map fst (userSessions st))\<close>.
\<close>

record state =
  browserPromise :: "handle option"
  userSessions :: "(string \<times> session) list"
  calls :: "event list"
  nextHandle :: handle

definition initial :: state where
  "initial = \<lparr>browserPromise = None, userSessions = [], calls = [], nextHandle = 0\<rparr>"

definition call :: "event \<Rightarrow> state \<Rightarrow> state" where
  "call e st = st\<lparr>calls := calls st @ [e]\<rparr>"

subsection \<open>The environment\<close>

text \<open>
  One field for each awaited library call whose outcome the program looks at:
  \<open>None\<close> when the promise resolves, \<open>Some m\<close> when it rejects with an error of
  message \<open>m\<close>. The outcomes of \<^verbatim>\<open>context.close()\<close>, of \<^verbatim>\<open>browser.close()\<close> and of
  the \<^verbatim>\<open>page.close()\<close> at line 123 are discarded by the program (caught and ignored),
  so they are no fields. \<open>page_close\<close> is the \<^verbatim>\<open>page.close()\<close> of line 224.
  \<open>isClosed\<close> is \<^verbatim>\<open>page.isClosed()\<close> when an operation starts and, for a page opened
  by the operation, at its catch block; \<open>isClosed_after\<close> is \<^verbatim>\<open>page.isClosed()\<close> once
  the automation steps of a verification have been awaited.
\<close>

record env =
  launch :: "string option"
  newContext :: "string option"
  newPage :: "string option"
  goto :: "string option"
  waitForPhoneInput :: "string option"
  fillPhone :: "string option"
  clickSend :: "string option"
  waitForOtpText :: "string option"
  innerText :: "string + utf16"
  isClosed :: "handle \<Rightarrow> bool"
  page_close :: "handle \<Rightarrow> string option"
  waitForOtpInput :: "string option"
  fillOtp :: "string option"
  clickVerify :: "string option"
  waitForTimeout :: "string option"
  step3 :: "bool option"
  isClosed_after :: "handle \<Rightarrow> bool"

text \<open>A sequence of awaited calls inside one \<^verbatim>\<open>try\<close>: the first rejection is thrown.\<close>

fun await_all :: "string option list \<Rightarrow> string option" where
  "await_all [] = None"
| "await_all (None # rs) = await_all rs"
| "await_all (Some m # rs) = Some m"

text \<open>
  \<^verbatim>\<open>String.prototype.trim\<close> removes the leading and the trailing code units that are
  white space or line terminators of ECMAScript: U+0009 to U+000D, U+0020, U+00A0, U+1680,
  U+2000 to U+200A, U+2028, U+2029, U+202F, U+205F, U+3000 and U+FEFF.
\<close>

definition is_space :: "16 word \<Rightarrow> bool" where
  "is_space ch =
     ((0x0009 \<le> ch \<and> ch \<le> 0x000D) \<or> ch = 0x0020 \<or> ch = 0x00A0 \<or> ch = 0x1680
      \<or> (0x2000 \<le> ch \<and> ch \<le> 0x200A) \<or> ch = 0x2028 \<or> ch = 0x2029 \<or> ch = 0x202F
      \<or> ch = 0x205F \<or> ch = 0x3000 \<or> ch = 0xFEFF)"

definition trim :: "utf16 \<Rightarrow> utf16" where
  "trim s = rev (dropWhile is_space (rev (dropWhile is_space s)))"

subsection \<open>Results\<close>

text \<open>
  The fixed user-facing texts of the program are in Thai; each is named by a constructor.
  \<open>Thrown m\<close> is \<^verbatim>\<open>err.message\<close> of a caught error.
\<close>

datatype message =
    SessionNotFound
  | OtpExpired
  | SessionExpired
  | Thrown string
  | SessionCreated
  | OtpVerified
  | OtpMismatch
  | SessionClosed string

record close_result =
  cl_success :: bool
  cl_error :: "message option"
  cl_message :: "message option"

record create_result =
  cr_success :: bool
  cr_session_id :: string
  cr_otp :: utf16
  cr_phone :: string
  cr_expires_in_seconds :: int
  cr_message :: message

record verify_result =
  vr_success :: bool
  vr_verified :: bool
  vr_otp_matched :: bool
  vr_thread_id :: "string option"
  vr_error :: "message option"
  vr_message :: "message option"
  vr_status :: "string option"
  vr_retry :: "bool option"

record session_info =
  gs_session_id :: string
  gs_phone :: string
  gs_otp :: utf16
  gs_status :: string
  gs_created_at :: int
  gs_otp_expires_at :: int
  gs_otp_expired :: bool

record session_summary =
  ls_session_id :: string
  ls_phone :: string
  ls_status :: string
  ls_created_at :: int
  ls_otp_expired :: bool

record listing =
  ls_success :: bool
  ls_total :: nat
  ls_sessions :: "session_summary list"

subsection \<open>getBrowser and resetBrowser (lines 25-53)\<close>

text \<open>
  A rejected launch runs the \<^verbatim>\<open>catch\<close> handler of line 32 first, which sets
  \<^verbatim>\<open>_browserPromise\<close> back to null, and then throws out of \<^verbatim>\<open>getBrowser\<close>.
\<close>

definition getBrowser :: "env \<Rightarrow> state \<Rightarrow> (string + handle) \<times> state" where
  "getBrowser e st =
     (case browserPromise st of
        Some b \<Rightarrow> (Inr b, st)
      | None \<Rightarrow>
          (case launch e of
             Some m \<Rightarrow> (Inl m, (call Launch st)\<lparr>browserPromise := None\<rparr>)
           | None \<Rightarrow>
               (let b = nextHandle st
                in (Inr b, (call Launch st)\<lparr>browserPromise := Some b, nextHandle := Suc b\<rparr>))))"

definition resetBrowser :: "state \<Rightarrow> state" where
  "resetBrowser st =
     (case browserPromise st of
        None \<Rightarrow> st
      | Some b \<Rightarrow> (call (BrowserClose b) st)\<lparr>browserPromise := None\<rparr>)"

subsection \<open>closeSession (lines 220-232)\<close>

text \<open>
  The \<^verbatim>\<open>try\<close> block of lines 223-225: \<^verbatim>\<open>page.close()\<close> is called when the page is there
  and not closed; when it rejects, control goes to the \<^verbatim>\<open>catch\<close> of line 226 and
  \<^verbatim>\<open>context.close()\<close> is not reached. A rejection of \<^verbatim>\<open>context.close()\<close> goes to the
  same \<^verbatim>\<open>catch\<close>, which only prints.
\<close>

definition closeSession_try :: "env \<Rightarrow> session \<Rightarrow> state \<Rightarrow> state" where
  "closeSession_try e s st =
     (let (st1, thrown) =
            (case page s of
               Some p \<Rightarrow>
                 if \<not> isClosed e p then (call (PageClose p) st, page_close e p) else (st, None)
             | None \<Rightarrow> (st, None))
      in case thrown of
           Some m \<Rightarrow> st1
         | None \<Rightarrow>
             (case browserContext s of
                Some c \<Rightarrow> call (ContextClose c) st1
              | None \<Rightarrow> st1))"

definition closeSession :: "string \<Rightarrow> env \<Rightarrow> state \<Rightarrow> close_result \<times> state" where
  "closeSession sessionId e st =
     (case map_of (userSessions st) sessionId of
        None \<Rightarrow>
          (\<lparr>cl_success = False, cl_error = Some SessionNotFound, cl_message = None\<rparr>, st)
      | Some s \<Rightarrow>
          (let st1 = closeSession_try e s st
           in (\<lparr>cl_success = True, cl_error = None,
                cl_message = Some (SessionClosed sessionId)\<rparr>,
               st1\<lparr>userSessions := AList.delete sessionId (userSessions st1)\<rparr>)))"

subsection \<open>createSession (lines 64-127)\<close>

text \<open>
  The \<^verbatim>\<open>catch\<close> block of lines 120-126, with the values \<^verbatim>\<open>page\<close> and \<^verbatim>\<open>context\<close> have
  at the throw. Each of the two closes has its own \<^verbatim>\<open>.catch(() => {})\<close>.
\<close>

definition createSession_catch :: "env \<Rightarrow> handle option \<Rightarrow> handle option \<Rightarrow> state \<Rightarrow> state" where
  "createSession_catch e pg cx st =
     (let st1 = (case pg of
                   Some p \<Rightarrow> if \<not> isClosed e p then call (PageClose p) st else st
                 | None \<Rightarrow> st)
      in case cx of
           Some c \<Rightarrow> call (ContextClose c) st1
         | None \<Rightarrow> st1)"

text \<open>Lines 68-71: an entry under the same id is closed first.\<close>

definition close_prior :: "string \<Rightarrow> env \<Rightarrow> state \<Rightarrow> state" where
  "close_prior sessionId e st =
     (if map_of (userSessions st) sessionId \<noteq> None
      then snd (closeSession sessionId e st) else st)"

text \<open>
  \<open>now\<close> is the \<^verbatim>\<open>Date.now()\<close> of line 100. A thrown error is \<open>Inl\<close> of its message.
\<close>

definition createSession ::
  "string \<Rightarrow> string \<Rightarrow> int \<Rightarrow> env \<Rightarrow> state \<Rightarrow> (string + create_result) \<times> state" where
  "createSession sessionId phoneNumber now e st0 =
     (let st1 = close_prior sessionId e st0
      in case getBrowser e st1 of
           (Inl m, st2) \<Rightarrow> (Inl m, st2)
         | (Inr browser, st2) \<Rightarrow>
             (case newContext e of
                Some m \<Rightarrow> (Inl m, createSession_catch e None None st2)
              | None \<Rightarrow>
                  (let c = nextHandle st2;
                       st3 = call (NewContext c) (st2\<lparr>nextHandle := Suc c\<rparr>)
                   in case newPage e of
                        Some m \<Rightarrow> (Inl m, createSession_catch e None (Some c) st3)
                      | None \<Rightarrow>
                          (let p = nextHandle st3;
                               st4 = call (NewPage p c) (st3\<lparr>nextHandle := Suc p\<rparr>)
                           in case await_all [goto e, waitForPhoneInput e, fillPhone e,
                                              clickSend e, waitForOtpText e] of
                                Some m \<Rightarrow>
                                  (Inl m, createSession_catch e (Some p) (Some c) st4)
                              | None \<Rightarrow>
                                  (case innerText e of
                                     Inl m \<Rightarrow>
                                       (Inl m, createSession_catch e (Some p) (Some c) st4)
                                   | Inr text \<Rightarrow>
                                       (let generatedOtp = trim text
                                        in (Inr \<lparr>cr_success = True,
                                                 cr_session_id = sessionId,
                                                 cr_otp = generatedOtp,
                                                 cr_phone = phoneNumber,
                                                 cr_expires_in_seconds = OTP_TTL_MS div 1000,
                                                 cr_message = SessionCreated\<rparr>,
                                            st4\<lparr>userSessions :=
                                              AList.update sessionId
                                                \<lparr>page = Some p,
                                                 browserContext = Some c,
                                                 phone = phoneNumber,
                                                 otp = generatedOtp,
                                                 createdAt = now,
                                                 otpExpiresAt = now + OTP_TTL_MS,
                                                 status = ''awaiting_verification''\<rparr>
                                                (userSessions st4)\<rparr>)))))))"

subsection \<open>verifySessionOTP (lines 132-189)\<close>

text \<open>
  \<open>now\<close> is the \<^verbatim>\<open>Date.now()\<close> of line 143. \<^verbatim>\<open>step3Visible\<close> (lines 166-168) is the
  value of the \<^verbatim>\<open>$eval\<close>, or false when the \<^verbatim>\<open>$eval\<close> rejects. The closes of lines 173
  and 185 come after the awaited steps and see \<open>isClosed_after\<close>.
\<close>

definition after_steps :: "env \<Rightarrow> env" where
  "after_steps e = e\<lparr>isClosed := isClosed_after e\<rparr>"

definition step3Visible :: "env \<Rightarrow> bool" where
  "step3Visible e = (case step3 e of Some b \<Rightarrow> b | None \<Rightarrow> False)"

definition set_status :: "string \<Rightarrow> string \<Rightarrow> state \<Rightarrow> state" where
  "set_status sessionId v st =
     (case map_of (userSessions st) sessionId of
        None \<Rightarrow> st
      | Some s \<Rightarrow> st\<lparr>userSessions := AList.update sessionId (s\<lparr>status := v\<rparr>) (userSessions st)\<rparr>)"

definition verifySessionOTP ::
  "string \<Rightarrow> string \<Rightarrow> string option \<Rightarrow> int \<Rightarrow> env \<Rightarrow> state \<Rightarrow> verify_result \<times> state" where
  "verifySessionOTP sessionId otpFromUser threadId now e st =
     (case map_of (userSessions st) sessionId of
        None \<Rightarrow>
          (\<lparr>vr_success = False, vr_verified = False, vr_otp_matched = False,
            vr_thread_id = threadId, vr_error = Some SessionNotFound, vr_message = None,
            vr_status = None, vr_retry = None\<rparr>, st)
      | Some session \<Rightarrow>
          if now > otpExpiresAt session then
            (\<lparr>vr_success = False, vr_verified = False, vr_otp_matched = False,
              vr_thread_id = threadId, vr_error = Some OtpExpired, vr_message = None,
              vr_status = Some ''expired'', vr_retry = None\<rparr>,
             snd (closeSession sessionId e st))
          else if (case page session of None \<Rightarrow> True | Some p \<Rightarrow> isClosed e p) then
            (\<lparr>vr_success = False, vr_verified = False, vr_otp_matched = False,
              vr_thread_id = threadId, vr_error = Some SessionExpired, vr_message = None,
              vr_status = Some ''expired'', vr_retry = None\<rparr>,
             snd (closeSession sessionId e st))
          else
            (case await_all [waitForOtpInput e, fillOtp e, clickVerify e, waitForTimeout e] of
               Some m \<Rightarrow>
                 (\<lparr>vr_success = False, vr_verified = False, vr_otp_matched = False,
                   vr_thread_id = threadId, vr_error = Some (Thrown m), vr_message = None,
                   vr_status = Some ''error'', vr_retry = None\<rparr>,
                  snd (closeSession sessionId (after_steps e) st))
             | None \<Rightarrow>
                 if step3Visible e then
                   (\<lparr>vr_success = True, vr_verified = True, vr_otp_matched = True,
                     vr_thread_id = threadId, vr_error = None, vr_message = Some OtpVerified,
                     vr_status = Some ''success'', vr_retry = None\<rparr>,
                    snd (closeSession sessionId (after_steps e)
                           (set_status sessionId ''verified'' st)))
                 else
                   (\<lparr>vr_success = True, vr_verified = False, vr_otp_matched = False,
                     vr_thread_id = threadId, vr_error = None, vr_message = Some OtpMismatch,
                     vr_status = Some ''failed'', vr_retry = Some True\<rparr>,
                    set_status sessionId ''awaiting_verification'' st)))"

subsection \<open>getSession and getAllSessions (lines 194-218)\<close>

text \<open>
  Both are synchronous and return a value; the state is returned with it so that what
  they do to the state is part of the model. A time stamp stands for the ISO string made
  of it. \<open>getAllSessions\<close> reads \<^verbatim>\<open>Date.now()\<close> once for every entry: \<open>clock i\<close> is the
  reading at the entry of index \<open>i\<close>.
\<close>

definition getSession :: "string \<Rightarrow> int \<Rightarrow> state \<Rightarrow> (message + session_info) \<times> state" where
  "getSession sessionId now st =
     (case map_of (userSessions st) sessionId of
        None \<Rightarrow> (Inl SessionNotFound, st)
      | Some s \<Rightarrow>
          (Inr \<lparr>gs_session_id = sessionId, gs_phone = phone s, gs_otp = otp s,
                gs_status = status s, gs_created_at = createdAt s,
                gs_otp_expires_at = otpExpiresAt s,
                gs_otp_expired = (now > otpExpiresAt s)\<rparr>, st))"

definition getAllSessions :: "(nat \<Rightarrow> int) \<Rightarrow> state \<Rightarrow> listing \<times> state" where
  "getAllSessions clock st =
     (let sessions =
            map (\<lambda>(i, (sid, s)).
                   \<lparr>ls_session_id = sid, ls_phone = phone s, ls_status = status s,
                    ls_created_at = createdAt s,
                    ls_otp_expired = (clock i > otpExpiresAt s)\<rparr>)
                (enumerate 0 (userSessions st))
      in (\<lparr>ls_success = True, ls_total = length sessions, ls_sessions = sessions\<rparr>, st))"

subsection \<open>cleanupOldSessions (lines 234-245) and POST /close (lines 346-350)\<close>

text \<open>
  The \<^verbatim>\<open>for ... of\<close> loops run over the entries of the \<^verbatim>\<open>Map\<close>. The only change to
  the \<^verbatim>\<open>Map\<close> during a loop is the deletion of the entry being visited, which leaves
  the entries still to come as they are, so the loop is a recursion over the list of
  entries at its start. \<open>now\<close> is the \<^verbatim>\<open>Date.now()\<close> of line 235.
\<close>

fun cleanup_loop :: "int \<Rightarrow> env \<Rightarrow> (string \<times> session) list \<Rightarrow> state \<Rightarrow> state" where
  "cleanup_loop now e [] st = st"
| "cleanup_loop now e ((sid, s) # rest) st =
     (if now - createdAt s > SESSION_MAX_AGE_MS
      then cleanup_loop now e rest (snd (closeSession sid e st))
      else cleanup_loop now e rest st)"

definition cleanupOldSessions :: "int \<Rightarrow> env \<Rightarrow> state \<Rightarrow> state" where
  "cleanupOldSessions now e st = cleanup_loop now e (userSessions st) st"

fun close_loop :: "env \<Rightarrow> (string \<times> session) list \<Rightarrow> state \<Rightarrow> state" where
  "close_loop e [] st = st"
| "close_loop e ((sid, s) # rest) st = close_loop e rest (snd (closeSession sid e st))"

definition close_all :: "env \<Rightarrow> state \<Rightarrow> state" where
  "close_all e st = resetBrowser (close_loop e (userSessions st) st)"

subsection \<open>Released handles\<close>

text \<open>
  The program releases a tab or a browsing context by calling \<^verbatim>\<open>close\<close> on it; what the
  library does with the request is not the program's. In a stretch of the call log,
  every context opened there is released when its \<^verbatim>\<open>close\<close> call comes later in the
  stretch, and every tab opened there when its \<^verbatim>\<open>close\<close> call comes later or the tab was
  seen closed (\<^verbatim>\<open>page.isClosed()\<close>).
\<close>

fun all_released :: "(handle \<Rightarrow> bool) \<Rightarrow> event list \<Rightarrow> bool" where
  "all_released closed [] = True"
| "all_released closed (NewContext c # es) =
     (ContextClose c \<in> set es \<and> all_released closed es)"
| "all_released closed (NewPage p c # es) =
     ((closed p \<or> PageClose p \<in> set es) \<and> all_released closed es)"
| "all_released closed (ev # es) = all_released closed es"

fun opens :: "event \<Rightarrow> bool" where
  "opens (NewContext c) = True"
| "opens (NewPage p c) = True"
| "opens ev = False"

subsection \<open>Example runs\<close>

text \<open>
  A library in which every call resolves and no page is closed behind the program's back;
  the page shows the code 123456 (the digits are U+0031 to U+0036) between a no-break
  space and a line feed, and accepts it.
\<close>

definition ok_env :: env where
  "ok_env = \<lparr>launch = None, newContext = None, newPage = None, goto = None,
             waitForPhoneInput = None, fillPhone = None, clickSend = None,
             waitForOtpText = None, innerText = Inr [0xA0, 0x31, 0x32, 0x33, 0x34, 0x35, 0x36, 0x0A],
             isClosed = (\<lambda>p. False), page_close = (\<lambda>p. None),
             waitForOtpInput = None, fillOtp = None, clickVerify = None,
             waitForTimeout = None, step3 = Some True,
             isClosed_after = (\<lambda>p. False)\<rparr>"

definition session_a :: session where
  "session_a = \<lparr>page = Some 2, browserContext = Some 1, phone = ''0812345678'',
                otp = [0x31, 0x32, 0x33, 0x34, 0x35, 0x36], createdAt = 1000,
                otpExpiresAt = 301000,
                status = ''awaiting_verification''\<rparr>"

definition session_b :: session where
  "session_b = \<lparr>page = Some 4, browserContext = Some 3, phone = ''0899999999'',
                otp = [0x31, 0x32, 0x33, 0x34, 0x35, 0x36], createdAt = 2000000,
                otpExpiresAt = 2300000,
                status = ''awaiting_verification''\<rparr>"

text \<open>The state after one successful \<^verbatim>\<open>createSession\<close>, and after a second one.\<close>

definition one_session :: state where
  "one_session = \<lparr>browserPromise = Some 0, userSessions = [(''a'', session_a)],
                  calls = [Launch, NewContext 1, NewPage 2 1], nextHandle = 3\<rparr>"

definition two_sessions :: state where
  "two_sessions = \<lparr>browserPromise = Some 0,
                   userSessions = [(''a'', session_a), (''b'', session_b)],
                   calls = [Launch, NewContext 1, NewPage 2 1, NewContext 3, NewPage 4 3],
                   nextHandle = 5\<rparr>"

section \<open>Properties\<close>

subsection \<open>What each operation does to the state\<close>

lemma call_simps [simp]:
  "userSessions (call ev st) = userSessions st"
  "browserPromise (call ev st) = browserPromise st"
  "nextHandle (call ev st) = nextHandle st"
  "calls (call ev st) = calls st @ [ev]"
  by (simp_all add: call_def)

lemma closeSession_try_frame [simp]:
  "userSessions (closeSession_try e s st) = userSessions st"
  "browserPromise (closeSession_try e s st) = browserPromise st"
  "nextHandle (closeSession_try e s st) = nextHandle st"
  by (simp_all add: closeSession_try_def split: option.splits prod.splits)

lemma map_of_None_delete: "map_of al k = None \<Longrightarrow> AList.delete k al = al"
  by (rule AList.delete_id) (simp add: map_of_eq_None_iff)

lemma map_of_delete_same [simp]: "map_of (AList.delete k al) k = None"
  by (simp add: AList.delete_conv')

lemma delete_as_filter: "AList.delete k al = filter (\<lambda>(k', v). k' \<noteq> k) al"
  by (induction al) auto

lemma userSessions_closeSession [simp]:
  "userSessions (snd (closeSession sid e st)) = AList.delete sid (userSessions st)"
  by (simp add: closeSession_def map_of_None_delete split: option.splits)

lemma browserPromise_closeSession [simp]:
  "browserPromise (snd (closeSession sid e st)) = browserPromise st"
  by (simp add: closeSession_def split: option.splits)

lemma nextHandle_closeSession [simp]:
  "nextHandle (snd (closeSession sid e st)) = nextHandle st"
  by (simp add: closeSession_def split: option.splits)

lemma closeSession_success:
  "cl_success (fst (closeSession sid e st)) \<longleftrightarrow> map_of (userSessions st) sid \<noteq> None"
  by (simp add: closeSession_def split: option.splits)

lemma set_status_frame [simp]:
  "browserPromise (set_status sid v st) = browserPromise st"
  "nextHandle (set_status sid v st) = nextHandle st"
  "calls (set_status sid v st) = calls st"
  by (simp_all add: set_status_def split: option.splits)

lemma map_of_set_status:
  "map_of (userSessions st) sid = Some s \<Longrightarrow>
   map_of (userSessions (set_status sid v st)) sid = Some (s\<lparr>status := v\<rparr>)"
  by (simp add: set_status_def AList.update_conv')

lemma close_prior_table:
  "userSessions (close_prior sid e st) = AList.delete sid (userSessions st)"
  by (simp add: close_prior_def map_of_None_delete)

lemma getBrowser_table:
  "getBrowser e st = (r, st') \<Longrightarrow> userSessions st' = userSessions st"
  by (auto simp: getBrowser_def Let_def split: option.splits)

lemma createSession_catch_table [simp]:
  "userSessions (createSession_catch e pg cx st) = userSessions st"
  by (simp add: createSession_catch_def split: option.splits)

text \<open>
  The four ways \<^verbatim>\<open>createSession\<close> throws: out of \<^verbatim>\<open>getBrowser\<close> (before the
  \<^verbatim>\<open>try\<close>), at \<^verbatim>\<open>newContext\<close>, at \<^verbatim>\<open>newPage\<close>, and at a later step.
\<close>

lemma createSession_throw_cases:
  assumes "createSession sid ph now e st = (Inl m, st')"
  obtains st2 where "getBrowser e (close_prior sid e st) = (Inl m, st2)" "st' = st2"
  | b st2 where "getBrowser e (close_prior sid e st) = (Inr b, st2)" "st' = st2"
  | b st2 where "getBrowser e (close_prior sid e st) = (Inr b, st2)"
      "st' = call (ContextClose (nextHandle st2))
               (call (NewContext (nextHandle st2)) (st2\<lparr>nextHandle := Suc (nextHandle st2)\<rparr>))"
  | b st2 where "getBrowser e (close_prior sid e st) = (Inr b, st2)"
      "st' = createSession_catch e (Some (Suc (nextHandle st2))) (Some (nextHandle st2))
               (call (NewPage (Suc (nextHandle st2)) (nextHandle st2))
                  ((call (NewContext (nextHandle st2)) (st2\<lparr>nextHandle := Suc (nextHandle st2)\<rparr>))
                     \<lparr>nextHandle := Suc (Suc (nextHandle st2))\<rparr>))"
  using assms
  unfolding createSession_def Let_def
  by (auto simp: createSession_catch_def split: prod.splits sum.splits option.splits)

subsection \<open>The call log\<close>

lemma all_released_no_opens:
  "\<forall>ev \<in> set xs. \<not> opens ev \<Longrightarrow> all_released f (xs @ ys) = all_released f ys"
proof (induction xs)
  case Nil
  then show ?case by simp
next
  case (Cons x xs)
  then show ?case by (cases x) simp_all
qed

lemma closeSession_try_calls:
  "\<exists>xs. calls (closeSession_try e s st) = calls st @ xs \<and> (\<forall>ev \<in> set xs. \<not> opens ev)"
  by (auto simp: closeSession_try_def split: option.splits prod.splits)

lemma closeSession_calls:
  "\<exists>xs. calls (snd (closeSession sid e st)) = calls st @ xs \<and> (\<forall>ev \<in> set xs. \<not> opens ev)"
  using closeSession_try_calls [of e _ st]
  by (auto simp: closeSession_def split: option.splits)

lemma close_prior_calls:
  "\<exists>xs. calls (close_prior sid e st) = calls st @ xs \<and> (\<forall>ev \<in> set xs. \<not> opens ev)"
  using closeSession_calls [of sid e st] by (simp add: close_prior_def)

lemma getBrowser_calls:
  "getBrowser e st = (r, st') \<Longrightarrow>
   \<exists>xs. calls st' = calls st @ xs \<and> (\<forall>ev \<in> set xs. \<not> opens ev)"
  by (auto simp: getBrowser_def Let_def split: option.splits)

text \<open>
  When \<^verbatim>\<open>page.close()\<close> resolves (or the page is closed already), \<^verbatim>\<open>closeSession\<close>
  asks for the tab and then for its context to be closed.
\<close>

lemma closeSession_releases_both:
  assumes "map_of (userSessions st) sid = Some s"
    and "page s = Some p" and "browserContext s = Some c"
    and "isClosed e p \<or> page_close e p = None"
  shows "calls (snd (closeSession sid e st)) =
           calls st @ (if isClosed e p then [] else [PageClose p]) @ [ContextClose c]"
  using assms by (auto simp: closeSession_def closeSession_try_def)

text \<open>When it rejects, the context is not asked to close, and the entry is deleted all the same.\<close>

lemma closeSession_page_close_rejects:
  assumes "map_of (userSessions st) sid = Some s"
    and "page s = Some p" and "\<not> isClosed e p" and "page_close e p = Some m"
  shows "calls (snd (closeSession sid e st)) = calls st @ [PageClose p]"
    and "map_of (userSessions (snd (closeSession sid e st))) sid = None"
  using assms by (auto simp: closeSession_def closeSession_try_def)

text \<open>
  \<^verbatim>\<open>createSession\<close> issues the calls of closing the prior session before any other, so
  with a \<^verbatim>\<open>page.close()\<close> that resolves the prior tab and context are released before
  the new ones are opened.
\<close>

lemma createSession_calls_extend:
  "\<exists>rest. calls (snd (createSession sid ph now e st)) = calls (close_prior sid e st) @ rest"
proof -
  obtain r st2 where g: "getBrowser e (close_prior sid e st) = (r, st2)"
    by (cases "getBrowser e (close_prior sid e st)")
  from getBrowser_calls [OF g] obtain ys where
    "calls st2 = calls (close_prior sid e st) @ ys" by blast
  then show ?thesis
    using g
    by (auto simp: createSession_def createSession_catch_def Let_def
             split: sum.splits option.splits)
qed

lemma createSession_closes_prior_first:
  assumes "map_of (userSessions st) sid = Some s"
    and "page s = Some p" and "browserContext s = Some c"
    and "isClosed e p \<or> page_close e p = None"
  shows "\<exists>rest. calls (snd (createSession sid ph now e st)) =
           calls st @ (if isClosed e p then [] else [PageClose p]) @ [ContextClose c] @ rest"
proof -
  have "calls (close_prior sid e st) =
          calls st @ (if isClosed e p then [] else [PageClose p]) @ [ContextClose c]"
    using closeSession_releases_both [OF assms] assms(1) by (simp add: close_prior_def)
  with createSession_calls_extend [of sid ph now e st] show ?thesis by auto
qed

subsection \<open>The loops\<close>

lemma cleanup_loop_table:
  "userSessions (cleanup_loop now e xs st) =
     filter (\<lambda>(k, v). k \<notin> set (map fst
                (filter (\<lambda>(k', s). now - createdAt s > SESSION_MAX_AGE_MS) xs)))
            (userSessions st)"
proof (induction xs arbitrary: st)
  case Nil
  then show ?case by simp
next
  case (Cons x xs)
  obtain k s where x: "x = (k, s)" by (cases x)
  show ?case
  proof (cases "now - createdAt s > SESSION_MAX_AGE_MS")
    case True
    then show ?thesis
      using x Cons.IH [of "snd (closeSession k e st)"]
      by (simp add: delete_as_filter) (rule filter_cong, auto)
  next
    case False
    then show ?thesis using x Cons.IH [of st] by simp
  qed
qed

lemma cleanup_table:
  assumes "distinct (map fst (userSessions st))"
  shows "userSessions (cleanupOldSessions now e st) =
         filter (\<lambda>(k, s). \<not> now - createdAt s > SESSION_MAX_AGE_MS) (userSessions st)"
proof -
  have "(k \<notin> set (map fst (filter (\<lambda>(k', s). now - createdAt s > SESSION_MAX_AGE_MS)
                               (userSessions st))))
        = (\<not> now - createdAt s > SESSION_MAX_AGE_MS)"
    if "(k, s) \<in> set (userSessions st)" for k s
    using that assms by (force dest: eq_key_imp_eq_value)
  then show ?thesis
    unfolding cleanupOldSessions_def cleanup_loop_table
    by (auto intro!: filter_cong)
qed

lemma close_loop_table:
  "userSessions (close_loop e xs st) =
     filter (\<lambda>(k, v). k \<notin> set (map fst xs)) (userSessions st)"
proof (induction xs arbitrary: st)
  case Nil
  then show ?case by simp
next
  case (Cons x xs)
  obtain k s where x: "x = (k, s)" by (cases x)
  show ?case
    using x Cons.IH [of "snd (closeSession k e st)"]
    by (simp add: delete_as_filter) (rule filter_cong, auto)
qed

lemma close_loop_empties: "userSessions (close_loop e (userSessions st) st) = []"
  unfolding close_loop_table by (force simp: filter_empty_conv)

lemma map_snd_enumerate: "map (\<lambda>p. f (snd p)) (enumerate n xs) = map f xs"
  by (induction xs arbitrary: n) simp_all

subsection \<open>The keys of the table stay distinct\<close>

lemma distinct_keys_closeSession:
  "distinct (map fst (userSessions st)) \<Longrightarrow>
   distinct (map fst (userSessions (snd (closeSession sid e st))))"
  by (simp add: AList.distinct_delete)

lemma distinct_keys_set_status:
  "distinct (map fst (userSessions st)) \<Longrightarrow>
   distinct (map fst (userSessions (set_status sid v st)))"
  by (simp add: set_status_def AList.distinct_update split: option.splits)

lemma distinct_keys_verifySessionOTP:
  "distinct (map fst (userSessions st)) \<Longrightarrow>
   distinct (map fst (userSessions (snd (verifySessionOTP sid code tid now e st))))"
  by (simp add: verifySessionOTP_def AList.distinct_delete distinct_keys_set_status
           split: option.splits)

lemma distinct_keys_createSession:
  assumes "distinct (map fst (userSessions st))"
  shows "distinct (map fst (userSessions (snd (createSession sid ph now e st))))"
proof -
  have d: "distinct (map fst (userSessions (close_prior sid e st)))"
    using assms by (simp add: close_prior_table AList.distinct_delete)
  obtain r st2 where g: "getBrowser e (close_prior sid e st) = (r, st2)"
    by (cases "getBrowser e (close_prior sid e st)")
  from getBrowser_table [OF g] d have "distinct (map fst (userSessions st2))" by simp
  then show ?thesis
    using g
    by (simp add: createSession_def Let_def AList.distinct_update
             split: sum.splits option.splits)
qed

lemma distinct_keys_cleanupOldSessions:
  "distinct (map fst (userSessions st)) \<Longrightarrow>
   distinct (map fst (userSessions (cleanupOldSessions now e st)))"
  by (simp add: cleanup_table distinct_map_filter)

lemma distinct_keys_initial: "distinct (map fst (userSessions initial))"
  by (simp add: initial_def)

text \<open>The example states are what \<^verbatim>\<open>createSession\<close> builds from the initial state.\<close>

lemma trim_example:
  "trim [0xA0, 0x31, 0x32, 0x33, 0x34, 0x35, 0x36, 0x0A] = [0x31, 0x32, 0x33, 0x34, 0x35, 0x36]"
  by (simp add: trim_def is_space_def)

lemma one_session_reached:
  "snd (createSession ''a'' ''0812345678'' 1000 ok_env initial) = one_session"
  by (simp add: createSession_def close_prior_def getBrowser_def initial_def ok_env_def
        one_session_def session_a_def OTP_TTL_MS_def trim_example call_def Let_def
        eval_nat_numeral)

lemma two_sessions_reached:
  "snd (createSession ''b'' ''0899999999'' 2000000 ok_env one_session) = two_sessions"
  by (simp add: createSession_def close_prior_def getBrowser_def ok_env_def
        one_session_def two_sessions_def session_a_def session_b_def OTP_TTL_MS_def trim_example
        call_def Let_def eval_nat_numeral)

lemma map_of_filter_distinct:
  "distinct (map fst xs) \<Longrightarrow> (k, v) \<in> set xs \<Longrightarrow>
   map_of (filter P xs) k = (if P (k, v) then Some v else None)"
proof (induction xs)
  case Nil
  then show ?case by simp
next
  case (Cons x xs)
  show ?case
  proof (cases "x = (k, v)")
    case True
    have "k \<notin> fst ` set xs" using Cons.prems(1) True by simp
    then have "k \<notin> fst ` set (filter P xs)" by auto
    then have "map_of (filter P xs) k = None" by (simp add: map_of_eq_None_iff)
    with True show ?thesis by simp
  next
    case False
    with Cons.prems have in_xs: "(k, v) \<in> set xs" and d: "distinct (map fst xs)" by auto
    from in_xs have "k \<in> fst ` set xs" by force
    with Cons.prems(1) have "fst x \<noteq> k" by auto
    with Cons.IH [OF d in_xs] show ?thesis by (cases x) simp
  qed
qed

section \<open>The claims\<close>

text \<open>
  C1, evaluated on the code. Claim: when \<^verbatim>\<open>createSession\<close> is called with an id that has
  an entry, the prior session is closed first, its tab and its context released and its
  entry deleted, before the new tab is opened. Here the table holds session a with tab 2 in
  context 1, and \<^verbatim>\<open>page.close()\<close> of tab 2 rejects. \<^verbatim>\<open>closeSession\<close> then leaves its
  \<^verbatim>\<open>try\<close> block before \<^verbatim>\<open>context.close()\<close>: the entry is replaced by one with the
  new tab 4 in context 3, and context 1 was never asked to close.
\<close>

theorem createSession_replace_skips_context_close:
  "map_of (userSessions one_session) ''a'' = Some session_a
   \<and> page session_a = Some 2 \<and> browserContext session_a = Some 1
   \<and> calls (snd (createSession ''a'' ''0812345678'' 2000
                    (ok_env\<lparr>page_close := (\<lambda>p. Some ''Target crashed'')\<rparr>) one_session))
       = [Launch, NewContext 1, NewPage 2 1, PageClose 2, NewContext 3, NewPage 4 3]
   \<and> ContextClose 1 \<notin> set (calls (snd (createSession ''a'' ''0812345678'' 2000
                    (ok_env\<lparr>page_close := (\<lambda>p. Some ''Target crashed'')\<rparr>) one_session)))
   \<and> map_option page (map_of (userSessions (snd (createSession ''a'' ''0812345678'' 2000
                    (ok_env\<lparr>page_close := (\<lambda>p. Some ''Target crashed'')\<rparr>) one_session))) ''a'')
       = Some (Some 4)"
  by (simp add: createSession_def close_prior_def closeSession_def closeSession_try_def
        getBrowser_def ok_env_def one_session_def session_a_def OTP_TTL_MS_def trim_example
        call_def Let_def)

text \<open>
  C2. When the time of the verify call is past the OTP expiry time stamp of the session,
  \<^verbatim>\<open>verifySessionOTP\<close> answers with success false, verified false and status
  \<^verbatim>\<open>expired\<close>, and the session is no longer in the table.
\<close>

theorem verify_expired_rejects_and_removes:
  assumes "map_of (userSessions st) sid = Some s" and "now > otpExpiresAt s"
  shows "vr_success (fst (verifySessionOTP sid code tid now e st)) = False
       \<and> vr_verified (fst (verifySessionOTP sid code tid now e st)) = False
       \<and> vr_status (fst (verifySessionOTP sid code tid now e st)) = Some ''expired''
       \<and> map_of (userSessions (snd (verifySessionOTP sid code tid now e st))) sid = None"
  using assms by (simp add: verifySessionOTP_def)

theorem verify_expired_rejects_and_removes_witness:
  "map_of (userSessions one_session) ''a'' = Some session_a
   \<and> 400000 > otpExpiresAt session_a
   \<and> vr_success (fst (verifySessionOTP ''a'' ''123456'' None 400000 ok_env one_session)) = False
   \<and> vr_status (fst (verifySessionOTP ''a'' ''123456'' None 400000 ok_env one_session))
       = Some ''expired''
   \<and> map_of (userSessions (snd (verifySessionOTP ''a'' ''123456'' None 400000 ok_env
                                   one_session))) ''a'' = None"
proof -
  have h1: "map_of (userSessions one_session) ''a'' = Some session_a"
    by (simp add: one_session_def)
  have h2: "400000 > otpExpiresAt session_a"
    by (simp add: session_a_def)
  show ?thesis
    using h1 h2
      verify_expired_rejects_and_removes [OF h1 h2, of "''123456''" None ok_env]
    by simp
qed

text \<open>
  C3. For a session that is in the table and not expired, whose page is open and on which
  the submission of the code goes through: when the page's match flag is set, the session
  is removed from the table and the result has verified true; when it is not set, the
  session stays in the table with status \<^verbatim>\<open>awaiting_verification\<close>, and the result has
  verified false and retry true.
\<close>

theorem verify_match_removes_mismatch_keeps:
  assumes "map_of (userSessions st) sid = Some s"
    and "\<not> now > otpExpiresAt s"
    and "page s = Some p" and "\<not> isClosed e p"
    and "await_all [waitForOtpInput e, fillOtp e, clickVerify e, waitForTimeout e] = None"
    and "verifySessionOTP sid code tid now e st = (r, st')"
  shows "(step3Visible e \<longrightarrow>
            map_of (userSessions st') sid = None \<and> vr_verified r = True)
       \<and> (\<not> step3Visible e \<longrightarrow>
            map_of (userSessions st') sid = Some (s\<lparr>status := ''awaiting_verification''\<rparr>)
            \<and> vr_verified r = False \<and> vr_retry r = Some True)"
proof (cases "step3Visible e")
  case True
  with assms have "r = \<lparr>vr_success = True, vr_verified = True, vr_otp_matched = True,
                     vr_thread_id = tid, vr_error = None, vr_message = Some OtpVerified,
                     vr_status = Some ''success'', vr_retry = None\<rparr>"
    and "st' = snd (closeSession sid (after_steps e) (set_status sid ''verified'' st))"
    by (simp_all add: verifySessionOTP_def)
  with True show ?thesis by simp
next
  case False
  with assms have "r = \<lparr>vr_success = True, vr_verified = False, vr_otp_matched = False,
                     vr_thread_id = tid, vr_error = None, vr_message = Some OtpMismatch,
                     vr_status = Some ''failed'', vr_retry = Some True\<rparr>"
    and "st' = set_status sid ''awaiting_verification'' st"
    by (simp_all add: verifySessionOTP_def)
  with False assms(1) show ?thesis by (simp add: map_of_set_status)
qed

theorem verify_match_removes_mismatch_keeps_witness:
  "map_of (userSessions one_session) ''a'' = Some session_a
   \<and> \<not> 2000 > otpExpiresAt session_a
   \<and> page session_a = Some 2 \<and> \<not> isClosed ok_env 2
   \<and> step3Visible ok_env
   \<and> map_of (userSessions (snd (verifySessionOTP ''a'' ''123456'' None 2000 ok_env
                                   one_session))) ''a'' = None
   \<and> vr_verified (fst (verifySessionOTP ''a'' ''123456'' None 2000 ok_env one_session)) = True
   \<and> \<not> step3Visible (ok_env\<lparr>step3 := Some False\<rparr>)
   \<and> map_of (userSessions (snd (verifySessionOTP ''a'' ''000000'' None 2000
                                   (ok_env\<lparr>step3 := Some False\<rparr>) one_session))) ''a''
       = Some (session_a\<lparr>status := ''awaiting_verification''\<rparr>)
   \<and> vr_retry (fst (verifySessionOTP ''a'' ''000000'' None 2000
                       (ok_env\<lparr>step3 := Some False\<rparr>) one_session)) = Some True"
proof -
  let ?bad = "ok_env\<lparr>step3 := Some False\<rparr>"
  have h1: "map_of (userSessions one_session) ''a'' = Some session_a"
    by (simp add: one_session_def)
  have h2: "\<not> 2000 > otpExpiresAt session_a"
    by (simp add: session_a_def)
  have h3: "page session_a = Some 2"
    by (simp add: session_a_def)
  have h4: "\<not> isClosed ok_env 2" "\<not> isClosed ?bad 2"
    by (simp_all add: ok_env_def)
  have h5: "await_all [waitForOtpInput ok_env, fillOtp ok_env, clickVerify ok_env,
                       waitForTimeout ok_env] = None"
    "await_all [waitForOtpInput ?bad, fillOtp ?bad, clickVerify ?bad,
                waitForTimeout ?bad] = None"
    by (simp_all add: ok_env_def)
  have v: "step3Visible ok_env" "\<not> step3Visible ?bad"
    by (simp_all add: step3Visible_def ok_env_def)
  show ?thesis
    using h1 h2 h3 h4 v
      verify_match_removes_mismatch_keeps [OF h1 h2 h3 h4(1) h5(1) surjective_pairing,
        of "''123456''" None]
      verify_match_removes_mismatch_keeps [OF h1 h2 h3 h4(2) h5(2) surjective_pairing,
        of "''000000''" None]
    by simp
qed

text \<open>
  C4. One run of the sweep removes every session whose age, the time of the sweep minus
  its creation time stamp, is above the maximum session age, whatever its OTP expiry time
  stamp is, and keeps every session whose age is at most the maximum: the table after the
  sweep is the table before it without the entries above the maximum age.
\<close>

theorem cleanup_removes_exactly_old:
  assumes "distinct (map fst (userSessions st))" and "(sid, s) \<in> set (userSessions st)"
  shows "(now - createdAt s > SESSION_MAX_AGE_MS \<longrightarrow>
            map_of (userSessions (cleanupOldSessions now e st)) sid = None)
       \<and> (now - createdAt s \<le> SESSION_MAX_AGE_MS \<longrightarrow>
            map_of (userSessions (cleanupOldSessions now e st)) sid = Some s)
       \<and> userSessions (cleanupOldSessions now e st) =
           filter (\<lambda>(k, s'). \<not> now - createdAt s' > SESSION_MAX_AGE_MS) (userSessions st)"
  using map_of_filter_distinct [OF assms,
          of "\<lambda>(k, s'). \<not> now - createdAt s' > SESSION_MAX_AGE_MS"]
  by (simp add: cleanup_table [OF assms(1)])

theorem cleanup_removes_exactly_old_witness:
  "distinct (map fst (userSessions two_sessions))
   \<and> (''a'', session_a) \<in> set (userSessions two_sessions)
   \<and> (''b'', session_b) \<in> set (userSessions two_sessions)
   \<and> 2000000 - createdAt session_a > SESSION_MAX_AGE_MS
   \<and> 2000000 - createdAt session_b \<le> SESSION_MAX_AGE_MS
   \<and> map_of (userSessions (cleanupOldSessions 2000000 ok_env two_sessions)) ''a'' = None
   \<and> map_of (userSessions (cleanupOldSessions 2000000 ok_env two_sessions)) ''b''
       = Some session_b"
proof -
  have d: "distinct (map fst (userSessions two_sessions))"
    by (simp add: two_sessions_def)
  have a: "(''a'', session_a) \<in> set (userSessions two_sessions)"
    and b: "(''b'', session_b) \<in> set (userSessions two_sessions)"
    by (simp_all add: two_sessions_def)
  have old: "2000000 - createdAt session_a > SESSION_MAX_AGE_MS"
    and young: "2000000 - createdAt session_b \<le> SESSION_MAX_AGE_MS"
    by (simp_all add: session_a_def session_b_def SESSION_MAX_AGE_MS_def)
  from cleanup_removes_exactly_old [OF d a, of 2000000 ok_env] old
  have ra: "map_of (userSessions (cleanupOldSessions 2000000 ok_env two_sessions)) ''a'' = None"
    by blast
  from cleanup_removes_exactly_old [OF d b, of 2000000 ok_env] young
  have rb: "map_of (userSessions (cleanupOldSessions 2000000 ok_env two_sessions)) ''b''
              = Some session_b"
    by blast
  show ?thesis
    by (intro conjI d a b old young ra rb)
qed

text \<open>
  C5. Whenever \<^verbatim>\<open>createSession\<close> throws, whatever step failed, the calls it issued end
  with every browsing context and every tab it opened released: the context by a later
  \<^verbatim>\<open>close\<close> call, the tab by a later \<^verbatim>\<open>close\<close> call unless it was seen closed. The state
  handed back with the error already holds these calls.
\<close>

theorem createSession_failure_releases:
  assumes "createSession sid ph now e st = (Inl m, st')"
  shows "\<exists>new. calls st' = calls st @ new \<and> all_released (isClosed e) new"
proof -
  obtain xs where xs: "calls (close_prior sid e st) = calls st @ xs"
      "\<forall>ev \<in> set xs. \<not> opens ev"
    using close_prior_calls by blast
  from assms show ?thesis
  proof (rule createSession_throw_cases)
    fix st2 assume g: "getBrowser e (close_prior sid e st) = (Inl m, st2)" and s: "st' = st2"
    from getBrowser_calls [OF g] obtain ys where
      "calls st2 = calls (close_prior sid e st) @ ys" "\<forall>ev \<in> set ys. \<not> opens ev" by blast
    with xs s have "calls st' = calls st @ (xs @ ys)" "\<forall>ev \<in> set (xs @ ys). \<not> opens ev"
      by auto
    then show ?thesis
      using all_released_no_opens [of "xs @ ys" "isClosed e" "[]"] by auto
  next
    fix b st2 assume g: "getBrowser e (close_prior sid e st) = (Inr b, st2)" and s: "st' = st2"
    from getBrowser_calls [OF g] obtain ys where
      "calls st2 = calls (close_prior sid e st) @ ys" "\<forall>ev \<in> set ys. \<not> opens ev" by blast
    with xs s have "calls st' = calls st @ (xs @ ys)" "\<forall>ev \<in> set (xs @ ys). \<not> opens ev"
      by auto
    then show ?thesis
      using all_released_no_opens [of "xs @ ys" "isClosed e" "[]"] by auto
  next
    fix b st2 assume g: "getBrowser e (close_prior sid e st) = (Inr b, st2)"
      and s: "st' = call (ContextClose (nextHandle st2))
               (call (NewContext (nextHandle st2)) (st2\<lparr>nextHandle := Suc (nextHandle st2)\<rparr>))"
    let ?tail = "[NewContext (nextHandle st2), ContextClose (nextHandle st2)]"
    from getBrowser_calls [OF g] obtain ys where
      "calls st2 = calls (close_prior sid e st) @ ys" "\<forall>ev \<in> set ys. \<not> opens ev" by blast
    with xs s have "calls st' = calls st @ ((xs @ ys) @ ?tail)"
      "\<forall>ev \<in> set (xs @ ys). \<not> opens ev"
      by auto
    then show ?thesis
      using all_released_no_opens [of "xs @ ys" "isClosed e" ?tail] by auto
  next
    fix b st2 assume g: "getBrowser e (close_prior sid e st) = (Inr b, st2)"
      and s: "st' = createSession_catch e (Some (Suc (nextHandle st2))) (Some (nextHandle st2))
               (call (NewPage (Suc (nextHandle st2)) (nextHandle st2))
                  ((call (NewContext (nextHandle st2)) (st2\<lparr>nextHandle := Suc (nextHandle st2)\<rparr>))
                     \<lparr>nextHandle := Suc (Suc (nextHandle st2))\<rparr>))"
    let ?c = "nextHandle st2" and ?p = "Suc (nextHandle st2)"
    let ?tail = "[NewContext ?c, NewPage ?p ?c]
                 @ (if isClosed e ?p then [] else [PageClose ?p]) @ [ContextClose ?c]"
    from getBrowser_calls [OF g] obtain ys where
      "calls st2 = calls (close_prior sid e st) @ ys" "\<forall>ev \<in> set ys. \<not> opens ev" by blast
    with xs s have "calls st' = calls st @ ((xs @ ys) @ ?tail)"
      "\<forall>ev \<in> set (xs @ ys). \<not> opens ev"
      by (auto simp: createSession_catch_def)
    moreover have "all_released (isClosed e) ?tail" by simp
    ultimately show ?thesis
      using all_released_no_opens [of "xs @ ys" "isClosed e" ?tail] by auto
  qed
qed

theorem createSession_failure_releases_witness:
  "createSession ''b'' ''0899999999'' 2000 (ok_env\<lparr>goto := Some ''Timeout 10000ms exceeded''\<rparr>)
     one_session
   = (Inl ''Timeout 10000ms exceeded'',
      one_session\<lparr>calls := calls one_session
                     @ [NewContext 3, NewPage 4 3, PageClose 4, ContextClose 3],
                   nextHandle := 5\<rparr>)
   \<and> (\<exists>new. calls one_session @ [NewContext 3, NewPage 4 3, PageClose 4, ContextClose 3]
              = calls one_session @ new
            \<and> all_released (\<lambda>p. False) new)"
proof -
  let ?e = "ok_env\<lparr>goto := Some ''Timeout 10000ms exceeded''\<rparr>"
  let ?st' = "one_session\<lparr>calls := calls one_session
                     @ [NewContext 3, NewPage 4 3, PageClose 4, ContextClose 3],
                   nextHandle := 5\<rparr>"
  have h: "createSession ''b'' ''0899999999'' 2000 ?e one_session
           = (Inl ''Timeout 10000ms exceeded'', ?st')"
    by (simp add: createSession_def close_prior_def getBrowser_def createSession_catch_def
          ok_env_def one_session_def call_def Let_def)
  have c: "isClosed ?e = (\<lambda>p. False)"
    by (simp add: ok_env_def)
  show ?thesis
    using h createSession_failure_releases [OF h] c by simp
qed

text \<open>
  What a failed verification does. For a session that is in the table,
  \<^verbatim>\<open>verifySessionOTP\<close> answers with success false exactly when the OTP is expired, the
  session's page is missing or closed, or a step of submitting the code throws; it then
  runs \<^verbatim>\<open>closeSession\<close>, and the session is no longer in the table.
\<close>

lemma verify_failure_removes_entry:
  assumes "map_of (userSessions st) sid = Some s"
    and "verifySessionOTP sid code tid now e st = (r, st')"
  shows "(vr_success r = False \<longleftrightarrow>
            (now > otpExpiresAt s \<or> page s = None \<or> (\<exists>p. page s = Some p \<and> isClosed e p)
             \<or> await_all [waitForOtpInput e, fillOtp e, clickVerify e, waitForTimeout e]
                 \<noteq> None))
       \<and> (vr_success r = False \<longrightarrow>
            vr_verified r = False \<and> vr_error r \<noteq> None
            \<and> (st' = snd (closeSession sid e st)
                \<or> st' = snd (closeSession sid (after_steps e) st))
            \<and> map_of (userSessions st') sid = None)"
  using assms
  by (auto simp: verifySessionOTP_def split: option.splits if_splits)

text \<open>
  When \<^verbatim>\<open>page.close()\<close> resolves, the calls of a failed verification are the close of
  the tab, unless the tab was seen closed, and then the close of its context.
\<close>

lemma verify_failure_releases_both:
  assumes "map_of (userSessions st) sid = Some s"
    and "page s = Some p" and "browserContext s = Some c"
    and "page_close e p = None"
    and "verifySessionOTP sid code tid now e st = (r, st')"
    and "vr_success r = False"
  shows "calls st' = calls st @ [PageClose p, ContextClose c]
       \<or> calls st' = calls st @ [ContextClose c]"
  using assms
  by (auto simp: verifySessionOTP_def closeSession_def closeSession_try_def after_steps_def
           split: option.splits if_splits)

text \<open>
  C6, evaluated on the code. Claim: every failure during the verification of an existing
  session closes that session and removes it from the table before the error result is
  returned. Here the table holds session a with tab 2 in context 1, not expired; filling
  in the code throws, and \<^verbatim>\<open>page.close()\<close> of tab 2 rejects. The error result is
  returned and the entry is removed, but \<^verbatim>\<open>closeSession\<close> leaves its \<^verbatim>\<open>try\<close> block
  before \<^verbatim>\<open>context.close()\<close>: context 1 was never asked to close.
\<close>

theorem verify_failure_skips_context_close:
  "map_of (userSessions one_session) ''a'' = Some session_a
   \<and> page session_a = Some 2 \<and> browserContext session_a = Some 1
   \<and> \<not> 2000 > otpExpiresAt session_a
   \<and> vr_success (fst (verifySessionOTP ''a'' ''123456'' None 2000
         (ok_env\<lparr>fillOtp := Some ''Timeout'', page_close := (\<lambda>p. Some ''Target crashed'')\<rparr>)
         one_session)) = False
   \<and> vr_status (fst (verifySessionOTP ''a'' ''123456'' None 2000
         (ok_env\<lparr>fillOtp := Some ''Timeout'', page_close := (\<lambda>p. Some ''Target crashed'')\<rparr>)
         one_session)) = Some ''error''
   \<and> map_of (userSessions (snd (verifySessionOTP ''a'' ''123456'' None 2000
         (ok_env\<lparr>fillOtp := Some ''Timeout'', page_close := (\<lambda>p. Some ''Target crashed'')\<rparr>)
         one_session))) ''a'' = None
   \<and> calls (snd (verifySessionOTP ''a'' ''123456'' None 2000
         (ok_env\<lparr>fillOtp := Some ''Timeout'', page_close := (\<lambda>p. Some ''Target crashed'')\<rparr>)
         one_session))
       = [Launch, NewContext 1, NewPage 2 1, PageClose 2]
   \<and> ContextClose 1 \<notin> set (calls (snd (verifySessionOTP ''a'' ''123456'' None 2000
         (ok_env\<lparr>fillOtp := Some ''Timeout'', page_close := (\<lambda>p. Some ''Target crashed'')\<rparr>)
         one_session)))"
  by (simp add: verifySessionOTP_def closeSession_def closeSession_try_def after_steps_def
        ok_env_def one_session_def session_a_def call_def)

text \<open>
  C7. After the close-all operation the session table is empty and the shared browser
  handle is null, so the first library call of the next \<^verbatim>\<open>createSession\<close> is
  \<^verbatim>\<open>chromium.launch\<close>; when that launch resolves, the shared handle is the new browser.
\<close>

theorem close_all_resets:
  "userSessions (close_all e st) = []
   \<and> browserPromise (close_all e st) = None
   \<and> (\<exists>rest. calls (snd (createSession sid ph now e' (close_all e st)))
               = calls (close_all e st) @ Launch # rest)
   \<and> (launch e' = None \<longrightarrow>
        browserPromise (snd (createSession sid ph now e' (close_all e st)))
          = Some (nextHandle (close_all e st)))"
proof -
  have t: "userSessions (close_all e st) = []"
    by (simp add: close_all_def resetBrowser_def close_loop_empties split: option.splits)
  have b: "browserPromise (close_all e st) = None"
    by (simp add: close_all_def resetBrowser_def split: option.splits)
  have "\<exists>rest. calls (snd (createSession sid ph now e' (close_all e st)))
               = calls (close_all e st) @ Launch # rest"
    using t b
    by (simp add: createSession_def close_prior_def getBrowser_def createSession_catch_def
          Let_def split: option.splits sum.splits)
  moreover have "launch e' = None \<longrightarrow>
        browserPromise (snd (createSession sid ph now e' (close_all e st)))
          = Some (nextHandle (close_all e st))"
    using t b
    by (simp add: createSession_def close_prior_def getBrowser_def createSession_catch_def
          Let_def split: option.splits sum.splits)
  ultimately show ?thesis using t b by blast
qed

theorem close_all_resets_witness:
  "launch ok_env = None
   \<and> close_all ok_env one_session
       = \<lparr>browserPromise = None, userSessions = [],
          calls = [Launch, NewContext 1, NewPage 2 1, PageClose 2, ContextClose 1,
                   BrowserClose 0],
          nextHandle = 3\<rparr>
   \<and> browserPromise (snd (createSession ''a'' ''0812345678'' 5000 ok_env
                            (close_all ok_env one_session))) = Some 3"
proof -
  have l: "launch ok_env = None"
    by (simp add: ok_env_def)
  have c: "close_all ok_env one_session
       = \<lparr>browserPromise = None, userSessions = [],
          calls = [Launch, NewContext 1, NewPage 2 1, PageClose 2, ContextClose 1,
                   BrowserClose 0],
          nextHandle = 3\<rparr>"
    by (simp add: close_all_def resetBrowser_def closeSession_def closeSession_try_def
          ok_env_def one_session_def session_a_def call_def)
  from close_all_resets [of ok_env one_session "''a''" "''0812345678''" 5000 ok_env] l
  have "browserPromise (snd (createSession ''a'' ''0812345678'' 5000 ok_env
                            (close_all ok_env one_session)))
        = Some (nextHandle (close_all ok_env one_session))"
    by blast
  then have r: "browserPromise (snd (createSession ''a'' ''0812345678'' 5000 ok_env
                            (close_all ok_env one_session))) = Some 3"
    by (simp only: c) simp
  show ?thesis
    by (intro conjI l c r)
qed

text \<open>
  C8. For a table with distinct keys, the total of the sessions listing is the number of
  session ids on which \<^verbatim>\<open>closeSession\<close> would answer success true, and the ids listed
  are the keys of the table, in its order.
\<close>

theorem listing_counts_closable:
  assumes "distinct (map fst (userSessions st))"
  shows "ls_total (fst (getAllSessions clock st))
           = card {sid. cl_success (fst (closeSession sid e st))}
       \<and> map ls_session_id (ls_sessions (fst (getAllSessions clock st)))
           = map fst (userSessions st)
       \<and> ls_total (fst (getAllSessions clock st)) = length (userSessions st)"
proof -
  have "{sid. cl_success (fst (closeSession sid e st))} = set (map fst (userSessions st))"
    by (auto simp: closeSession_success map_of_eq_None_iff)
  then have c: "card {sid. cl_success (fst (closeSession sid e st))}
                = length (userSessions st)"
    using assms distinct_card [of "map fst (userSessions st)"] by simp
  have m: "map ls_session_id (ls_sessions (fst (getAllSessions clock st)))
           = map fst (userSessions st)"
    using map_snd_enumerate [of fst 0 "userSessions st"]
    by (simp add: getAllSessions_def Let_def split_def comp_def)
  show ?thesis using c m by (simp add: getAllSessions_def Let_def)
qed

theorem listing_counts_closable_witness:
  "distinct (map fst (userSessions two_sessions))
   \<and> ls_total (fst (getAllSessions (\<lambda>i. 2000000) two_sessions)) = 2
   \<and> card {sid. cl_success (fst (closeSession sid ok_env two_sessions))} = 2"
proof -
  have d: "distinct (map fst (userSessions two_sessions))"
    by (simp add: two_sessions_def)
  have t: "ls_total (fst (getAllSessions (\<lambda>i. 2000000) two_sessions)) = 2"
    by (simp add: getAllSessions_def two_sessions_def)
  from listing_counts_closable [OF d, of "\<lambda>i. 2000000" ok_env] t
  have c: "card {sid. cl_success (fst (closeSession sid ok_env two_sessions))} = 2"
    by simp
  show ?thesis
    by (intro conjI d t c)
qed

text \<open>
  C9. When \<^verbatim>\<open>createSession\<close> throws, the session table afterwards has no entry for the
  session id, also when it had one before the call: the table is the one before the call
  with that id deleted, and the failed attempt puts nothing back.
\<close>

theorem createSession_failure_leaves_no_entry:
  assumes "createSession sid ph now e st = (Inl m, st')"
  shows "map_of (userSessions st') sid = None
       \<and> userSessions st' = AList.delete sid (userSessions st)"
proof -
  have "userSessions st' = AList.delete sid (userSessions st)"
    using assms
    by (rule createSession_throw_cases)
       (auto dest!: getBrowser_table simp: close_prior_table)
  then show ?thesis by simp
qed

theorem createSession_failure_leaves_no_entry_witness:
  "map_of (userSessions one_session) ''a'' = Some session_a
   \<and> createSession ''a'' ''0812345678'' 2000 (ok_env\<lparr>goto := Some ''net::ERR_FAILED''\<rparr>)
       one_session
     = (Inl ''net::ERR_FAILED'',
        \<lparr>browserPromise = Some 0, userSessions = [],
         calls = [Launch, NewContext 1, NewPage 2 1, PageClose 2, ContextClose 1,
                  NewContext 3, NewPage 4 3, PageClose 4, ContextClose 3],
         nextHandle = 5\<rparr>)
   \<and> map_of (userSessions
        \<lparr>browserPromise = Some 0, userSessions = [],
         calls = [Launch, NewContext 1, NewPage 2 1, PageClose 2, ContextClose 1,
                  NewContext 3, NewPage 4 3, PageClose 4, ContextClose 3],
         nextHandle = 5\<rparr>) ''a'' = None"
proof -
  have a: "map_of (userSessions one_session) ''a'' = Some session_a"
    by (simp add: one_session_def)
  have h: "createSession ''a'' ''0812345678'' 2000 (ok_env\<lparr>goto := Some ''net::ERR_FAILED''\<rparr>)
       one_session
     = (Inl ''net::ERR_FAILED'',
        \<lparr>browserPromise = Some 0, userSessions = [],
         calls = [Launch, NewContext 1, NewPage 2 1, PageClose 2, ContextClose 1,
                  NewContext 3, NewPage 4 3, PageClose 4, ContextClose 3],
         nextHandle = 5\<rparr>)"
    by (simp add: createSession_def close_prior_def closeSession_def closeSession_try_def
          getBrowser_def createSession_catch_def ok_env_def one_session_def session_a_def
          call_def Let_def)
  from createSession_failure_leaves_no_entry [OF h]
  have r: "map_of (userSessions
        \<lparr>browserPromise = Some 0, userSessions = [],
         calls = [Launch, NewContext 1, NewPage 2 1, PageClose 2, ContextClose 1,
                  NewContext 3, NewPage 4 3, PageClose 4, ContextClose 3],
         nextHandle = 5\<rparr>) ''a'' = None"
    by blast
  show ?thesis
    by (intro conjI a h r)
qed

text \<open>
  C10. \<^verbatim>\<open>getSession\<close> and \<^verbatim>\<open>getAllSessions\<close> return the state they were called in:
  the session table with every field of every session, and the shared browser handle, are
  unchanged. For a session whose OTP expiry time stamp is past, \<^verbatim>\<open>getSession\<close> reports
  \<^verbatim>\<open>otp_expired\<close> true and the session is still in the table.
\<close>

theorem queries_read_only:
  "snd (getSession sid now st) = st
   \<and> snd (getAllSessions clock st) = st
   \<and> (\<forall>s. map_of (userSessions st) sid = Some s \<and> now > otpExpiresAt s \<longrightarrow>
        (\<exists>info. fst (getSession sid now st) = Inr info \<and> gs_otp_expired info = True)
        \<and> map_of (userSessions (snd (getSession sid now st))) sid = Some s)"
  by (auto simp: getSession_def getAllSessions_def Let_def split: option.splits)

theorem queries_read_only_witness:
  "map_of (userSessions one_session) ''a'' = Some session_a
   \<and> 400000 > otpExpiresAt session_a
   \<and> (\<exists>info. fst (getSession ''a'' 400000 one_session) = Inr info
             \<and> gs_otp_expired info = True)
   \<and> map_of (userSessions (snd (getSession ''a'' 400000 one_session))) ''a''
       = Some session_a"
proof -
  have h1: "map_of (userSessions one_session) ''a'' = Some session_a"
    by (simp add: one_session_def)
  have h2: "400000 > otpExpiresAt session_a"
    by (simp add: session_a_def)
  from queries_read_only [of "''a''" 400000 one_session] h1 h2
  have r: "(\<exists>info. fst (getSession ''a'' 400000 one_session) = Inr info
             \<and> gs_otp_expired info = True)
        \<and> map_of (userSessions (snd (getSession ''a'' 400000 one_session))) ''a''
            = Some session_a"
    by blast
  show ?thesis
    using h1 h2 r by blast
qed

end
